theory Spec2Isabelle
  imports Complex_Main
begin

section \<open>The pomodoro timer of \<open>pomodoro-timer.jsx\<close>\<close>

text \<open>
  The component is modelled as a state machine over one record. The record holds the
  React state variables and refs of \<open>PomodoroTimer\<close> under their source names, the
  host's table of live \<open>setInterval\<close> timers created by the timer effect, and a log of
  the calls made to the module-level bell manager.

  Conventions of the embedding:
  \<^item> \<open>Date.now()\<close> is an integer number of milliseconds (\<open>int\<close>); the host supplies it
    with every event.
  \<^item> JavaScript numbers are modelled exactly: the counters and \<open>timeLeft\<close> are \<open>int\<close>, the
    fractional \<open>elapsed\<close> and \<open>remaining\<close> seconds are \<open>rat\<close>. Rounding of IEEE doubles is
    not modelled.
  \<^item> A ref holding \<open>null\<close> is \<open>None\<close>. In arithmetic JavaScript converts \<open>null\<close> to \<open>0\<close>;
    \<open>null_to_num\<close> writes that out.
  \<^item> An event handler and the re-render it causes (state update, then the effects whose
    dependencies changed) form one atomic step: execution is single-threaded.
  \<^item> A thrown exception or rejected promise is \<open>Inl\<close>, a normal result is \<open>Inr\<close>.
\<close>

subsection \<open>Modes\<close>

datatype mode = focus | short | long

text \<open>\<open>MODES[m].duration\<close>, in seconds.\<close>

fun duration :: "mode \<Rightarrow> int" where
  "duration focus = 25 * 60"
| "duration short = 5 * 60"
| "duration long = 15 * 60"

subsection \<open>The bell manager\<close>

text \<open>
  \<open>createBellManager\<close> closes over \<open>intervalId\<close> and \<open>timeoutId\<close>. The host side is made
  explicit: \<open>bell_intervals\<close> and \<open>bell_timeouts\<close> are the timers of the host that are
  still live, \<open>next_id\<close> is the next handle the host hands out, and \<open>strikes\<close> counts the
  calls of \<open>strikeBell\<close> (the audio synthesis itself is not modelled).
\<close>

record bell_manager =
  intervalId :: "nat option"
  timeoutId :: "nat option"
  bell_intervals :: "nat list"
  bell_timeouts :: "nat list"
  next_id :: nat
  strikes :: nat

definition createBellManager :: bell_manager where
  "createBellManager =
     \<lparr>intervalId = None, timeoutId = None, bell_intervals = [], bell_timeouts = [],
      next_id = 1, strikes = 0\<rparr>"

definition strikeBell :: "bell_manager \<Rightarrow> bell_manager" where
  "strikeBell b = b\<lparr>strikes := strikes b + 1\<rparr>"

text \<open>
  \<open>clearInterval(id)\<close> and \<open>clearTimeout(id)\<close>: the host removes the timer with that
  handle from its list of active timers; \<open>null\<close> names no timer.
\<close>

definition bell_clear :: "nat option \<Rightarrow> bell_manager \<Rightarrow> bell_manager" where
  "bell_clear h b =
     (case h of
        None \<Rightarrow> b
      | Some i \<Rightarrow> b\<lparr>bell_intervals := removeAll i (bell_intervals b),
                    bell_timeouts := removeAll i (bell_timeouts b)\<rparr>)"

definition bell_start :: "bell_manager \<Rightarrow> bell_manager" where
  "bell_start b =
     (let b1 = strikeBell b;
          i = next_id b1;
          b2 = b1\<lparr>bell_intervals := i # bell_intervals b1, next_id := i + 1,
                  intervalId := Some i\<rparr>;
          t = next_id b2
      in b2\<lparr>bell_timeouts := t # bell_timeouts b2, next_id := t + 1, timeoutId := Some t\<rparr>)"

definition bell_stop :: "bell_manager \<Rightarrow> bell_manager" where
  "bell_stop b =
     (let b1 = bell_clear (intervalId b) b;
          b2 = bell_clear (timeoutId b1) b1
      in b2\<lparr>intervalId := None, timeoutId := None\<rparr>)"

text \<open>The host fires a live repeating timer: its callback strikes the bell.\<close>

definition bell_interval_fires :: "nat \<Rightarrow> bell_manager \<Rightarrow> bell_manager" where
  "bell_interval_fires i b = (if i \<in> set (bell_intervals b) then strikeBell b else b)"

text \<open>The host fires a live one-shot timer: it is spent, and its callback is \<open>stop\<close>.\<close>

definition bell_timeout_fires :: "nat \<Rightarrow> bell_manager \<Rightarrow> bell_manager" where
  "bell_timeout_fires t b =
     (if t \<in> set (bell_timeouts b)
      then bell_stop (b\<lparr>bell_timeouts := removeAll t (bell_timeouts b)\<rparr>)
      else b)"

datatype bell_call = BellStart | BellStop

fun bell_apply :: "bell_manager \<Rightarrow> bell_call \<Rightarrow> bell_manager" where
  "bell_apply b BellStart = bell_start b"
| "bell_apply b BellStop = bell_stop b"

subsection \<open>Daily session helpers\<close>

datatype exn = Exn

record date =
  getFullYear :: nat
  getMonth :: nat
  getDate :: nat

text \<open>\<open>String(n)\<close> for a natural number: its decimal digits.\<close>

fun String_nat :: "nat \<Rightarrow> string" where
  "String_nat n =
     (if n < 10 then [''0123456789'' ! n]
      else String_nat (n div 10) @ [''0123456789'' ! (n mod 10)])"

declare String_nat.simps [simp del]

text \<open>\<open>String(n)\<close> for an integer.\<close>

definition String_int :: "int \<Rightarrow> string" where
  "String_int n = (if n < 0 then ''-'' @ String_nat (nat (- n)) else String_nat (nat n))"

definition padStart :: "nat \<Rightarrow> char \<Rightarrow> string \<Rightarrow> string" where
  "padStart n c s = replicate (n - length s) c @ s"

definition todayKey :: "date \<Rightarrow> string" where
  "todayKey d =
     ''pomodoro:'' @ String_nat (getFullYear d) @ ''-''
       @ padStart 2 (CHR ''0'') (String_nat (getMonth d + 1)) @ ''-''
       @ padStart 2 (CHR ''0'') (String_nat (getDate d))"

text \<open>
  \<open>loadTodaySessions\<close>. \<open>get\<close> is the awaited \<open>window.storage.get\<close>: it throws, or returns
  a falsy result (\<open>None\<close>), or returns a result whose \<open>value\<close> field is \<open>v\<close>. \<open>Number\<close> is
  the conversion applied to that field. The \<open>try\<close> body is the inner \<open>case\<close>, the
  \<open>catch\<close> the outer one.
\<close>

definition loadTodaySessions ::
  "(string \<Rightarrow> exn + 'v option) \<Rightarrow> ('v \<Rightarrow> exn + int) \<Rightarrow> date \<Rightarrow> exn + int" where
  "loadTodaySessions get Number d =
     (case (case get (todayKey d) of
              Inl e \<Rightarrow> Inl e
            | Inr None \<Rightarrow> Inr 0
            | Inr (Some v) \<Rightarrow> Number v) of
        Inl e \<Rightarrow> Inr 0
      | Inr n \<Rightarrow> Inr n)"

text \<open>\<open>saveTodaySessions\<close>. \<open>put\<close> is the awaited \<open>window.storage.set\<close>.\<close>

definition saveTodaySessions ::
  "(string \<Rightarrow> string \<Rightarrow> exn + unit) \<Rightarrow> date \<Rightarrow> int \<Rightarrow> exn + unit" where
  "saveTodaySessions put d n =
     (case put (todayKey d) (String_int n) of
        Inl e \<Rightarrow> Inr ()
      | Inr u \<Rightarrow> Inr ())"

subsection \<open>The component state\<close>

record app =
  mode :: mode
  timeLeft :: int
  running :: bool
  sessions :: int
  dailySessions :: int
  loaded :: bool
  bellActive :: bool
  alertMsg :: string
  intervalRef :: "nat option"
  startedAtRef :: "int option"
  remainingAtStart :: "int option"
  modeRef :: mode
  timers :: "nat list"
  next_timer :: nat
  bell_log :: "bell_call list"

text \<open>
  The state after the first render and its effects: the \<open>useState\<close> and \<open>useRef\<close>
  initial values, no live timer, no call of the bell yet.
\<close>

definition init :: app where
  "init =
     \<lparr>mode = focus, timeLeft = duration focus, running = False, sessions = 0,
      dailySessions = 0, loaded = False, bellActive = False, alertMsg = [],
      intervalRef = None, startedAtRef = None, remainingAtStart = None,
      modeRef = focus, timers = [], next_timer = 1, bell_log = []\<rparr>"

text \<open>What the host supplies while an event is handled.\<close>

record host =
  now :: int
  today :: date
  storage_set :: "string \<Rightarrow> string \<Rightarrow> exn + unit"

text \<open>The number a ref stands for in arithmetic: \<open>null\<close> counts as 0.\<close>

definition null_to_num :: "int option \<Rightarrow> int" where
  "null_to_num r = (case r of None \<Rightarrow> 0 | Some v \<Rightarrow> v)"

text \<open>
  \<open>setInterval\<close> of the timer effect: the host hands out a fresh handle and keeps the
  timer live. \<open>clearInterval\<close> removes the timer with the given handle; \<open>null\<close> names
  none.
\<close>

definition setInterval :: "app \<Rightarrow> nat \<times> app" where
  "setInterval st =
     (next_timer st,
      st\<lparr>timers := next_timer st # timers st, next_timer := next_timer st + 1\<rparr>)"

definition clearInterval :: "nat option \<Rightarrow> app \<Rightarrow> app" where
  "clearInterval h st =
     (case h of None \<Rightarrow> st | Some i \<Rightarrow> st\<lparr>timers := removeAll i (timers st)\<rparr>)"

definition triggerBell :: "string \<Rightarrow> app \<Rightarrow> app" where
  "triggerBell msg st =
     st\<lparr>bell_log := bell_log st @ [BellStart], bellActive := True, alertMsg := msg\<rparr>"

definition dismissBell :: "app \<Rightarrow> app" where
  "dismissBell st =
     st\<lparr>bell_log := bell_log st @ [BellStop], bellActive := False, alertMsg := []\<rparr>"

text \<open>
  The updater passed to \<open>setDaily\<close>: the promise returned by \<open>saveTodaySessions\<close> is
  dropped.
\<close>

definition daily_updater :: "host \<Rightarrow> int \<Rightarrow> int" where
  "daily_updater h d =
     (let next = d + 1;
          p = saveTodaySessions (storage_set h) (today h) next
      in next)"

text \<open>
  \<open>finishSession\<close>. The two alert messages are written without their leading emoji.
\<close>

definition finishSession :: "host \<Rightarrow> app \<Rightarrow> app" where
  "finishSession h st =
     (let st1 = st\<lparr>running := False\<rparr>;
          st2 = clearInterval (intervalRef st1) st1;
          st3 = st2\<lparr>intervalRef := None, startedAtRef := None\<rparr>
      in if modeRef st3 = focus
         then (let st4 = triggerBell ''Focus session complete! Time for a break.'' st3;
                   st5 = st4\<lparr>sessions := sessions st4 + 1\<rparr>;
                   st6 = st5\<lparr>dailySessions := daily_updater h (dailySessions st5)\<rparr>
               in st6\<lparr>mode := short, timeLeft := duration short\<rparr>)
         else (let st4 = triggerBell ''Break is over! Let's get back to work.'' st3
               in st4\<lparr>mode := focus, timeLeft := duration focus\<rparr>))"

definition switchMode :: "mode \<Rightarrow> app \<Rightarrow> app" where
  "switchMode m st =
     (let st1 = st\<lparr>running := False\<rparr>;
          st2 = clearInterval (intervalRef st1) st1;
          st3 = st2\<lparr>intervalRef := None, startedAtRef := None\<rparr>
      in st3\<lparr>mode := m, timeLeft := duration m\<rparr>)"

text \<open>The \<open>onClick\<close> of the start/pause button.\<close>

definition click_start_pause :: "app \<Rightarrow> app" where
  "click_start_pause st =
     (let st1 = (if running st then st\<lparr>startedAtRef := None\<rparr> else st)
      in st1\<lparr>running := \<not> running st1\<rparr>)"

text \<open>The \<open>onClick\<close> of the reset button.\<close>

definition click_reset :: "app \<Rightarrow> app" where
  "click_reset st =
     (let st1 = st\<lparr>running := False\<rparr>;
          st2 = clearInterval (intervalRef st1) st1;
          st3 = st2\<lparr>intervalRef := None, startedAtRef := None\<rparr>
      in st3\<lparr>timeLeft := duration (mode st3)\<rparr>)"

subsection \<open>The drift-corrected clock\<close>

definition elapsed :: "int \<Rightarrow> app \<Rightarrow> rat" where
  "elapsed t st = of_int (t - null_to_num (startedAtRef st)) / 1000"

definition remaining :: "int \<Rightarrow> app \<Rightarrow> rat" where
  "remaining t st = max (of_int (null_to_num (remainingAtStart st)) - elapsed t st) 0"

text \<open>The body shared by the interval callback and \<open>onVisible\<close>.\<close>

definition recompute :: "host \<Rightarrow> app \<Rightarrow> app" where
  "recompute h st =
     (if remaining (now h) st \<le> 0
      then finishSession h (st\<lparr>timeLeft := 0\<rparr>)
      else st\<lparr>timeLeft := \<lceil>remaining (now h) st\<rceil>\<rparr>)"

definition interval_callback :: "host \<Rightarrow> app \<Rightarrow> app" where
  "interval_callback h st = recompute h st"

definition onVisible :: "host \<Rightarrow> app \<Rightarrow> app" where
  "onVisible h st =
     (if \<not> running st \<or> startedAtRef st = None then st else recompute h st)"

subsection \<open>Effects\<close>

text \<open>The cleanup and the body of the main timer effect.\<close>

definition timer_cleanup :: "app \<Rightarrow> app" where
  "timer_cleanup st = (clearInterval (intervalRef st) st)\<lparr>intervalRef := None\<rparr>"

definition timer_effect :: "host \<Rightarrow> app \<Rightarrow> app" where
  "timer_effect h st =
     (if running st
      then (let st1 = (if startedAtRef st = None
                       then st\<lparr>startedAtRef := Some (now h),
                               remainingAtStart := Some (timeLeft st)\<rparr>
                       else st);
                (i, st2) = setInterval st1
            in st2\<lparr>intervalRef := Some i\<rparr>)
      else st)"

text \<open>
  The effects run after a handler: \<open>modeRef\<close> is brought in line with \<open>mode\<close>, and the
  timer effect, whose dependency is \<open>running\<close>, is cleaned up and run again when
  \<open>running\<close> differs from its value \<open>prev\<close> at the previous render.
\<close>

definition rerender :: "host \<Rightarrow> bool \<Rightarrow> app \<Rightarrow> app" where
  "rerender h prev st =
     (let st1 = st\<lparr>modeRef := mode st\<rparr>
      in if running st1 = prev then st1 else timer_effect h (timer_cleanup st1))"

subsection \<open>Events\<close>

datatype event =
    ClickStartPause
  | ClickReset
  | SwitchMode mode
  | Tick nat
  | Visible
  | ClickDismiss
  | LoadCompleted int

text \<open>
  The completion of the start-up load, \<open>setDaily(n); setLoaded(true)\<close>, with \<open>n\<close> the
  number \<open>loadTodaySessions\<close> resolved to.
\<close>

definition load_completed :: "int \<Rightarrow> app \<Rightarrow> app" where
  "load_completed n st = st\<lparr>dailySessions := n, loaded := True\<rparr>"

text \<open>
  One step. \<open>Tick i\<close> is the host firing the interval timer with handle \<open>i\<close>; a timer that
  has been cleared never fires, so the event does nothing unless \<open>i\<close> is live.
  \<open>LoadCompleted n\<close> is the promise of the mount effect resolving to \<open>n\<close>; the component
  issues that read once, the event type does not bound how often or when it completes.
\<close>

definition step :: "host \<Rightarrow> event \<Rightarrow> app \<Rightarrow> app" where
  "step h e st =
     (case e of
        ClickStartPause \<Rightarrow> rerender h (running st) (click_start_pause st)
      | ClickReset \<Rightarrow> rerender h (running st) (click_reset st)
      | SwitchMode m \<Rightarrow> rerender h (running st) (switchMode m st)
      | Tick i \<Rightarrow>
          if i \<in> set (timers st) then rerender h (running st) (interval_callback h st)
          else st
      | Visible \<Rightarrow> rerender h (running st) (onVisible h st)
      | ClickDismiss \<Rightarrow> rerender h (running st) (dismissBell st)
      | LoadCompleted n \<Rightarrow> rerender h (running st) (load_completed n st))"

fun run :: "(host \<times> event) list \<Rightarrow> app \<Rightarrow> app" where
  "run [] st = st"
| "run ((h, e) # tr) st = run tr (step h e st)"

text \<open>The number of times the expiry transition has called the bell.\<close>

definition expiries :: "app \<Rightarrow> nat" where
  "expiries st = length (filter (\<lambda>c. c = BellStart) (bell_log st))"

text \<open>A host whose clock reads \<open>t\<close> and whose store accepts, or rejects, every write.\<close>

definition storage_accepts :: "string \<Rightarrow> string \<Rightarrow> exn + unit" where
  "storage_accepts k v = Inr ()"

definition storage_rejects :: "string \<Rightarrow> string \<Rightarrow> exn + unit" where
  "storage_rejects k v = Inl Exn"

definition a_day :: date where
  "a_day = \<lparr>getFullYear = 2025, getMonth = 0, getDate = 7\<rparr>"

definition host_at :: "int \<Rightarrow> host" where
  "host_at t = \<lparr>now = t, today = a_day, storage_set = storage_accepts\<rparr>"

definition failing_host_at :: "int \<Rightarrow> host" where
  "failing_host_at t = \<lparr>now = t, today = a_day, storage_set = storage_rejects\<rparr>"

text \<open>A store whose reads fail, and one that holds nothing.\<close>

definition get_fails :: "string \<Rightarrow> exn + int option" where
  "get_fails k = Inl Exn"

definition get_absent :: "string \<Rightarrow> exn + int option" where
  "get_absent k = Inr None"

subsection \<open>Predicates on states and events\<close>

text \<open>
  What every state reached from \<open>init\<close> satisfies: \<open>modeRef\<close> shadows \<open>mode\<close>; the timer
  runs exactly when \<open>startedAtRef\<close> is set and exactly when \<open>intervalRef\<close> is set; a set
  \<open>startedAtRef\<close> comes with a set \<open>remainingAtStart\<close>; and the live timers of the host are
  the one held in \<open>intervalRef\<close>, or none.
\<close>

definition consistent :: "app \<Rightarrow> bool" where
  "consistent st \<longleftrightarrow>
     modeRef st = mode st
     \<and> (running st \<longleftrightarrow> startedAtRef st \<noteq> None)
     \<and> (running st \<longleftrightarrow> intervalRef st \<noteq> None)
     \<and> (startedAtRef st \<noteq> None \<longrightarrow> remainingAtStart st \<noteq> None)
     \<and> timers st = (case intervalRef st of None \<Rightarrow> [] | Some i \<Rightarrow> [i])"

text \<open>The two events that recompute the clock.\<close>

fun clock_event :: "event \<Rightarrow> bool" where
  "clock_event (Tick i) = True"
| "clock_event Visible = True"
| "clock_event e = False"

text \<open>
  A clock event that reaches its handler in \<open>st\<close>: a tick of a live timer, or a visibility
  change.
\<close>

fun delivered :: "event \<Rightarrow> app \<Rightarrow> bool" where
  "delivered (Tick i) st = (i \<in> set (timers st))"
| "delivered Visible st = True"
| "delivered e st = False"

text \<open>The event that completes the start-up load.\<close>

fun load_event :: "event \<Rightarrow> bool" where
  "load_event (LoadCompleted n) = True"
| "load_event e = False"

section \<open>Properties\<close>

subsection \<open>Reachable states and the effect of clock events\<close>

lemmas handler_defs =
  click_start_pause_def click_reset_def switchMode_def finishSession_def triggerBell_def
  load_completed_def
  dismissBell_def daily_updater_def interval_callback_def onVisible_def recompute_def

lemmas effect_defs =
  rerender_def timer_effect_def timer_cleanup_def setInterval_def clearInterval_def

lemma consistent_init: "consistent init"
  by (simp add: consistent_def init_def)

lemma consistent_step: "consistent st \<Longrightarrow> consistent (step h e st)"
  by (cases e) (auto simp: consistent_def step_def handler_defs effect_defs Let_def split: option.splits)

lemma consistent_run: "consistent st \<Longrightarrow> consistent (run tr st)"
  by (induction tr arbitrary: st) (auto simp: consistent_step)

lemma consistent_reachable: "consistent (run tr init)"
  by (rule consistent_run [OF consistent_init])

lemma remaining_timeLeft [simp]: "remaining t (st\<lparr>timeLeft := x\<rparr>) = remaining t st"
  by (simp add: remaining_def elapsed_def)

lemma delivered_timeLeft [simp]: "delivered e (st\<lparr>timeLeft := x\<rparr>) = delivered e st"
  by (cases e) simp_all

lemma modeRef_same: "modeRef st = mode st \<Longrightarrow> st\<lparr>modeRef := mode st\<rparr> = st"
  by (cases st) simp

lemma step_idle:
  assumes "consistent st" "\<not> running st" "clock_event e"
  shows "step h e st = st"
proof -
  from assms(1) have m: "modeRef st = mode st" and t: "timers st = []"
    using assms(2) by (auto simp: consistent_def split: option.splits)
  show ?thesis using assms(2,3) t
    by (cases e) (simp_all add: step_def onVisible_def rerender_def Let_def modeRef_same [OF m])
qed

lemma step_undelivered:
  assumes "consistent st" "clock_event e" "\<not> delivered e st"
  shows "step h e st = st"
  using assms by (cases e) (simp_all add: step_def)

lemma step_recompute:
  assumes "consistent st" "running st" "delivered e st"
  shows "step h e st = rerender h True (recompute h st)"
  using assms by (cases e) (auto simp: step_def interval_callback_def onVisible_def consistent_def)

lemma step_counting_down:
  assumes "consistent st" "running st" "delivered e st" "0 < remaining (now h) st"
  shows "step h e st = st\<lparr>timeLeft := \<lceil>remaining (now h) st\<rceil>\<rparr>"
proof -
  from assms(1) have m: "modeRef st = mode st" by (simp add: consistent_def)
  have "step h e st = rerender h True (st\<lparr>timeLeft := \<lceil>remaining (now h) st\<rceil>\<rparr>)"
    using assms by (simp add: step_recompute recompute_def)
  also have "\<dots> = (st\<lparr>timeLeft := \<lceil>remaining (now h) st\<rceil>\<rparr>)\<lparr>modeRef := mode st\<rparr>"
    using assms(2) by (simp add: rerender_def Let_def)
  also have "\<dots> = st\<lparr>timeLeft := \<lceil>remaining (now h) st\<rceil>\<rparr>"
    using m by (cases st) simp
  finally show ?thesis .
qed

lemma step_expiring:
  assumes "consistent st" "running st" "delivered e st" "remaining (now h) st \<le> 0"
  shows "step h e st = rerender h True (finishSession h (st\<lparr>timeLeft := 0\<rparr>))"
  using assms by (simp add: step_recompute recompute_def)

lemma expired_not_running:
  "\<not> running (rerender h True (finishSession h st))"
  by (simp add: rerender_def finishSession_def triggerBell_def effect_defs Let_def split: option.splits)

lemma expired_expiries:
  "expiries (rerender h True (finishSession h st)) = expiries st + 1"
  by (simp add: expiries_def rerender_def finishSession_def triggerBell_def effect_defs Let_def split: option.splits)

lemma expiries_timeLeft [simp]: "expiries (st\<lparr>timeLeft := x\<rparr>) = expiries st"
  by (simp add: expiries_def)

lemma consistent_timeLeft [simp]: "consistent (st\<lparr>timeLeft := x\<rparr>) = consistent st"
  by (simp add: consistent_def)

lemma run_idle:
  assumes "consistent st" "\<not> running st" "\<forall>x\<in>set tr. clock_event (snd x)"
  shows "run tr st = st"
  using assms by (induction tr arbitrary: st) (auto simp: step_idle)

lemma expiry_count:
  assumes "consistent st" "running st" "\<forall>x\<in>set tr. clock_event (snd x)"
  shows "expiries (run tr st) =
           expiries st + (if \<exists>x\<in>set tr. delivered (snd x) st \<and> remaining (now (fst x)) st \<le> 0
                          then 1 else 0)"
  using assms
proof (induction tr arbitrary: st)
  case Nil
  then show ?case by simp
next
  case (Cons x tr)
  obtain h e where x: "x = (h, e)" by (cases x)
  from Cons.prems(3) x have ce: "clock_event e" and rest: "\<forall>x\<in>set tr. clock_event (snd x)"
    by auto
  show ?case
  proof (cases "delivered e st")
    case False
    then have "step h e st = st" using Cons.prems(1) ce by (simp add: step_undelivered)
    then show ?thesis using Cons.IH [OF Cons.prems(1,2) rest] x False by simp
  next
    case True
    show ?thesis
    proof (cases "remaining (now h) st \<le> 0")
      case expired: True
      let ?st' = "step h e st"
      have eq: "?st' = rerender h True (finishSession h (st\<lparr>timeLeft := 0\<rparr>))"
        using Cons.prems(1,2) True expired by (rule step_expiring)
      have c: "consistent ?st'" using Cons.prems(1) by (rule consistent_step)
      have nr: "\<not> running ?st'" unfolding eq by (rule expired_not_running)
      have "run tr ?st' = ?st'" using c nr rest by (rule run_idle)
      moreover have "expiries ?st' = expiries st + 1"
        unfolding eq by (simp add: expired_expiries)
      ultimately show ?thesis using x True expired by auto
    next
      case counting: False
      let ?st' = "st\<lparr>timeLeft := \<lceil>remaining (now h) st\<rceil>\<rparr>"
      have eq: "step h e st = ?st'"
        using Cons.prems(1,2) True counting by (simp add: step_counting_down)
      have "expiries (run tr ?st') =
              expiries ?st' + (if \<exists>x\<in>set tr. delivered (snd x) ?st' \<and> remaining (now (fst x)) ?st' \<le> 0
                               then 1 else 0)"
        using Cons.prems(1,2) rest by (intro Cons.IH) simp_all
      then show ?thesis using x eq counting by simp
    qed
  qed
qed

lemma running_after_clock_events:
  assumes "consistent st" "running st" "\<forall>x\<in>set tr. clock_event (snd x)"
  shows "running (run tr st) \<longleftrightarrow>
           \<not> (\<exists>x\<in>set tr. delivered (snd x) st \<and> remaining (now (fst x)) st \<le> 0)"
  using assms
proof (induction tr arbitrary: st)
  case Nil
  then show ?case by simp
next
  case (Cons x tr)
  obtain h e where x: "x = (h, e)" by (cases x)
  from Cons.prems(3) x have ce: "clock_event e" and rest: "\<forall>x\<in>set tr. clock_event (snd x)"
    by auto
  show ?case
  proof (cases "delivered e st")
    case False
    then have "step h e st = st" using Cons.prems(1) ce by (simp add: step_undelivered)
    then show ?thesis using Cons.IH [OF Cons.prems(1,2) rest] x False by simp
  next
    case True
    show ?thesis
    proof (cases "remaining (now h) st \<le> 0")
      case expired: True
      let ?st' = "step h e st"
      have eq: "?st' = rerender h True (finishSession h (st\<lparr>timeLeft := 0\<rparr>))"
        using Cons.prems(1,2) True expired by (rule step_expiring)
      have c: "consistent ?st'" using Cons.prems(1) by (rule consistent_step)
      have nr: "\<not> running ?st'" unfolding eq by (rule expired_not_running)
      have "run tr ?st' = ?st'" using c nr rest by (rule run_idle)
      then show ?thesis using nr x True expired by auto
    next
      case counting: False
      let ?st' = "st\<lparr>timeLeft := \<lceil>remaining (now h) st\<rceil>\<rparr>"
      have eq: "step h e st = ?st'"
        using Cons.prems(1,2) True counting by (simp add: step_counting_down)
      have "running (run tr ?st') \<longleftrightarrow>
              \<not> (\<exists>x\<in>set tr. delivered (snd x) ?st' \<and> remaining (now (fst x)) ?st' \<le> 0)"
        using Cons.prems(1,2) rest by (intro Cons.IH) simp_all
      then show ?thesis using x eq counting by simp
    qed
  qed
qed

subsection \<open>The store has no influence on the state\<close>

lemma finishSession_storage_independent:
  "finishSession (h\<lparr>storage_set := p\<rparr>) st = finishSession (h\<lparr>storage_set := q\<rparr>) st"
  by (simp add: finishSession_def daily_updater_def Let_def)

lemma recompute_storage_independent:
  "recompute (h\<lparr>storage_set := p\<rparr>) st = recompute (h\<lparr>storage_set := q\<rparr>) st"
  by (simp add: recompute_def finishSession_storage_independent [where h = h and p = p and q = q])

lemma rerender_storage_independent:
  "rerender (h\<lparr>storage_set := p\<rparr>) prev st = rerender (h\<lparr>storage_set := q\<rparr>) prev st"
  by (simp add: rerender_def timer_effect_def Let_def)

lemma step_storage_independent:
  "step (h\<lparr>storage_set := p\<rparr>) e st = step (h\<lparr>storage_set := q\<rparr>) e st"
  by (cases e)
    (simp_all add: step_def interval_callback_def onVisible_def
      recompute_storage_independent [where h = h and p = p and q = q] rerender_storage_independent [where h = h and p = p and q = q])

subsection \<open>The session counters\<close>

lemma finishSession_counters:
  "sessions (finishSession h st) = sessions st + (if modeRef st = focus then 1 else 0)
   \<and> dailySessions (finishSession h st)
       = dailySessions st + (if modeRef st = focus then 1 else 0)"
  by (simp add: finishSession_def triggerBell_def daily_updater_def clearInterval_def Let_def
      split: option.splits)

lemma rerender_counters:
  "sessions (rerender h prev st) = sessions st
   \<and> dailySessions (rerender h prev st) = dailySessions st"
  by (simp add: effect_defs Let_def split: option.splits)

lemma recompute_counters:
  "sessions (recompute h st)
     = sessions st + (if remaining (now h) st \<le> 0 \<and> modeRef st = focus then 1 else 0)
   \<and> dailySessions (recompute h st)
     = dailySessions st + (if remaining (now h) st \<le> 0 \<and> modeRef st = focus then 1 else 0)"
  by (simp add: recompute_def finishSession_counters)

lemma step_counters:
  "sessions (step h e st) = sessions st \<and> dailySessions (step h e st) = dailySessions st
   \<or> sessions (step h e st) = sessions st + 1
     \<and> dailySessions (step h e st) = dailySessions st + 1
     \<and> modeRef st = focus \<and> delivered e st \<and> remaining (now h) st \<le> 0
   \<or> load_event e \<and> sessions (step h e st) = sessions st"
  by (cases e)
    (simp_all add: step_def rerender_counters interval_callback_def onVisible_def
      recompute_counters click_start_pause_def click_reset_def switchMode_def dismissBell_def
      load_completed_def clearInterval_def Let_def split: option.splits)

lemma step_load_completed:
  "sessions (step h (LoadCompleted n) st) = sessions st
   \<and> dailySessions (step h (LoadCompleted n) st) = n"
  by (simp add: step_def rerender_counters load_completed_def)

lemma run_sessions: "sessions st \<le> sessions (run tr st)"
proof (induction tr arbitrary: st)
  case Nil
  show ?case by simp
next
  case (Cons x tr)
  obtain h e where x: "x = (h, e)" by (cases x)
  have "sessions st \<le> sessions (step h e st)"
    using step_counters [of h e st] by auto
  with Cons.IH [of "step h e st"] x show ?case by auto
qed

lemma run_dailySessions:
  "\<forall>x\<in>set tr. \<not> load_event (snd x) \<Longrightarrow> dailySessions st \<le> dailySessions (run tr st)"
proof (induction tr arbitrary: st)
  case Nil
  show ?case by simp
next
  case (Cons x tr)
  obtain h e where x: "x = (h, e)" by (cases x)
  from Cons.prems x have e: "\<not> load_event e" and rest: "\<forall>x\<in>set tr. \<not> load_event (snd x)"
    by auto
  have "dailySessions st \<le> dailySessions (step h e st)"
    using step_counters [of h e st] e by auto
  with Cons.IH [OF rest, of "step h e st"] x show ?case by auto
qed

lemmas all_defs = step_def handler_defs effect_defs init_def host_at_def failing_host_at_def Let_def
  remaining_def elapsed_def null_to_num_def

subsection \<open>Expiry\<close>

text \<open>
  Claim C1. In every state reached from \<open>init\<close> in which the timer is running, a clock
  event that finds no time remaining stops the timer. If the expiring mode was \<open>focus\<close>,
  \<open>sessions\<close> and \<open>dailySessions\<close> each grow by exactly 1, the mode becomes \<open>short\<close> and
  \<open>timeLeft\<close> becomes 300. If it was \<open>short\<close> or \<open>long\<close>, both counters keep their values,
  the mode becomes \<open>focus\<close> and \<open>timeLeft\<close> becomes 1500.
\<close>

theorem expiry_transition:
  assumes "st = run pre init" and "running st" and "delivered e st"
    and "remaining (now h) st \<le> 0"
  shows "\<not> running (step h e st)
    \<and> (mode st = focus \<longrightarrow>
          sessions (step h e st) = sessions st + 1
          \<and> dailySessions (step h e st) = dailySessions st + 1
          \<and> mode (step h e st) = short
          \<and> timeLeft (step h e st) = 300)
    \<and> (mode st = short \<or> mode st = long \<longrightarrow>
          sessions (step h e st) = sessions st
          \<and> dailySessions (step h e st) = dailySessions st
          \<and> mode (step h e st) = focus
          \<and> timeLeft (step h e st) = 1500)"
proof -
  have c: "consistent st" using assms(1) by (simp add: consistent_reachable)
  then have m: "modeRef st = mode st" by (simp add: consistent_def)
  have eq: "step h e st = rerender h True (finishSession h (st\<lparr>timeLeft := 0\<rparr>))"
    using c assms(2,3,4) by (rule step_expiring)
  show ?thesis unfolding eq using m
    by (cases "mode st")
      (simp_all add: rerender_def finishSession_def triggerBell_def daily_updater_def
        effect_defs Let_def split: option.splits)
qed

text \<open>
  The scenario of the specification: start in \<open>focus\<close> at time 0, tick at 1500 seconds.
\<close>

theorem expiry_transition_witness:
  "running (run [(host_at 0, ClickStartPause)] init)
   \<and> delivered (Tick 1) (run [(host_at 0, ClickStartPause)] init)
   \<and> remaining (now (host_at 1500000)) (run [(host_at 0, ClickStartPause)] init) \<le> 0
   \<and> \<not> running (step (host_at 1500000) (Tick 1) (run [(host_at 0, ClickStartPause)] init))
   \<and> mode (step (host_at 1500000) (Tick 1) (run [(host_at 0, ClickStartPause)] init)) = short
   \<and> timeLeft (step (host_at 1500000) (Tick 1) (run [(host_at 0, ClickStartPause)] init)) = 300
   \<and> dailySessions (step (host_at 1500000) (Tick 1) (run [(host_at 0, ClickStartPause)] init)) = 1
   \<and> sessions (step (host_at 1500000) (Tick 1) (run [(host_at 0, ClickStartPause)] init)) = 1"
proof -
  let ?st = "run [(host_at 0, ClickStartPause)] init"
  have r: "running ?st" by (simp add: all_defs)
  have d: "delivered (Tick 1) ?st" by (simp add: all_defs)
  have z: "remaining (now (host_at 1500000)) ?st \<le> 0" by (simp add: all_defs)
  have m: "mode ?st = focus" by (simp add: all_defs)
  have s: "sessions ?st = 0" "dailySessions ?st = 0" by (simp_all add: all_defs)
  from expiry_transition [OF refl r d z] m s r d z show ?thesis by simp
qed

subsection \<open>The recomputed remaining time\<close>

text \<open>
  Claim C2. In every state reached from \<open>init\<close> in which the timer is running with the
  anchor \<open>(s, r)\<close>, at every instant \<open>now\<close> from \<open>s\<close> on the recomputed remaining time is
  \<open>max (r - (now - s) / 1000, 0)\<close> seconds, which is never negative. A clock event that
  finds it positive sets \<open>timeLeft\<close> to its ceiling, which is at least 1, and the timer
  keeps running. \<open>timeLeft\<close> is set to 0 only when the remaining time is 0, and then the
  expiry transition \<open>finishSession\<close> is applied at once.
\<close>

theorem clock_recomputation:
  assumes "st = run pre init" and "running st"
    and "startedAtRef st = Some s" and "remainingAtStart st = Some r"
    and "s \<le> now h" and "delivered e st"
  shows "remaining (now h) st = max (of_int r - of_int (now h - s) / 1000) 0
    \<and> 0 \<le> remaining (now h) st
    \<and> (0 < remaining (now h) st \<longrightarrow>
          timeLeft (step h e st) = \<lceil>remaining (now h) st\<rceil>
          \<and> 0 < timeLeft (step h e st)
          \<and> running (step h e st))
    \<and> (remaining (now h) st \<le> 0 \<longrightarrow>
          recompute h st = finishSession h (st\<lparr>timeLeft := 0\<rparr>)
          \<and> \<not> running (step h e st))"
proof -
  have c: "consistent st" using assms(1) by (simp add: consistent_reachable)
  have f: "remaining (now h) st = max (of_int r - of_int (now h - s) / 1000) 0"
    using assms(3,4) by (simp add: remaining_def elapsed_def null_to_num_def)
  have n: "0 \<le> remaining (now h) st" by (simp add: remaining_def)
  have p: "timeLeft (step h e st) = \<lceil>remaining (now h) st\<rceil>
           \<and> 0 < timeLeft (step h e st) \<and> running (step h e st)"
    if "0 < remaining (now h) st"
    using that assms(2) by (simp add: step_counting_down [OF c assms(2) assms(6) that])
  have z: "recompute h st = finishSession h (st\<lparr>timeLeft := 0\<rparr>) \<and> \<not> running (step h e st)"
    if "remaining (now h) st \<le> 0"
    using that by (simp add: step_expiring [OF c assms(2) assms(6) that] expired_not_running recompute_def)
  show ?thesis using f n p z by blast
qed

text \<open>
  Start at time 0 with 1500 seconds. The tick at 9.5 seconds finds 1490.5 seconds and
  displays 1491; the tick at 1500 seconds finds none and stops the timer.
\<close>

theorem clock_recomputation_witness:
  "running (run [(host_at 0, ClickStartPause)] init)
   \<and> startedAtRef (run [(host_at 0, ClickStartPause)] init) = Some 0
   \<and> remainingAtStart (run [(host_at 0, ClickStartPause)] init) = Some 1500
   \<and> 0 \<le> now (host_at 9500)
   \<and> delivered (Tick 1) (run [(host_at 0, ClickStartPause)] init)
   \<and> remaining (now (host_at 9500)) (run [(host_at 0, ClickStartPause)] init) = 2981 / 2
   \<and> timeLeft (step (host_at 9500) (Tick 1) (run [(host_at 0, ClickStartPause)] init)) = 1491
   \<and> 0 \<le> now (host_at 1500000)
   \<and> remaining (now (host_at 1500000)) (run [(host_at 0, ClickStartPause)] init) \<le> 0
   \<and> \<not> running
         (step (host_at 1500000) (Tick 1) (run [(host_at 0, ClickStartPause)] init))"
proof -
  let ?st = "run [(host_at 0, ClickStartPause)] init"
  have r: "running ?st" by (simp add: all_defs)
  have a: "startedAtRef ?st = Some 0" by (simp add: all_defs)
  have b: "remainingAtStart ?st = Some 1500" by (simp add: all_defs)
  have l: "0 \<le> now (host_at 9500)" by (simp add: host_at_def)
  have d: "delivered (Tick 1) ?st" by (simp add: all_defs)
  have v: "max (of_int 1500 - of_int (now (host_at 9500) - 0) / 1000) 0 = (2981 / 2 :: rat)"
    by (simp add: host_at_def)
  have cl: "\<lceil>2981 / 2 :: rat\<rceil> = 1491" by (rule ceiling_unique) simp_all
  note inst = clock_recomputation [OF refl r a b l d]
  from inst have "remaining (now (host_at 9500)) ?st
      = max (of_int 1500 - of_int (now (host_at 9500) - 0) / 1000) 0"
    by (rule conjunct1)
  with v have f: "remaining (now (host_at 9500)) ?st = 2981 / 2" by (simp only:)
  then have "0 < remaining (now (host_at 9500)) ?st" by simp
  with inst have "timeLeft (step (host_at 9500) (Tick 1) ?st)
      = \<lceil>remaining (now (host_at 9500)) ?st\<rceil>"
    by blast
  with f cl have t: "timeLeft (step (host_at 9500) (Tick 1) ?st) = 1491" by (simp only:)
  have l': "0 \<le> now (host_at 1500000)" by (simp add: host_at_def)
  have z: "remaining (now (host_at 1500000)) ?st \<le> 0" by (simp add: all_defs)
  from clock_recomputation [OF refl r a b l' d] z
  have x: "\<not> running (step (host_at 1500000) (Tick 1) ?st)" by blast
  from r a b l d f t l' z x show ?thesis by blast
qed

subsection \<open>The two halves of the anchor\<close>

text \<open>
  Claim C3, as stated, fails: after a start at time 0 and a pause at 10 seconds,
  \<open>startedAtRef\<close> is unset while \<open>remainingAtStart\<close> still holds 1500. No handler ever
  assigns \<open>null\<close> to \<open>remainingAtStart\<close>.
\<close>

theorem anchor_pairing_counterexample:
  "startedAtRef (run [(host_at 0, ClickStartPause), (host_at 10000, ClickStartPause)] init) = None
   \<and> remainingAtStart (run [(host_at 0, ClickStartPause), (host_at 10000, ClickStartPause)] init)
       = Some 1500"
  by (simp add: all_defs)

text \<open>
  Claim C3, amended. In every state reached from \<open>init\<close>, if \<open>startedAtRef\<close> is set then
  \<open>remainingAtStart\<close> is set. Pausing a running timer stops it and clears
  \<open>startedAtRef\<close>; it leaves \<open>remainingAtStart\<close> at its last snapshot.
\<close>

theorem anchor_invariant:
  assumes "st = run pre init"
  shows "(startedAtRef st \<noteq> None \<longrightarrow> remainingAtStart st \<noteq> None)
    \<and> (running st \<longrightarrow>
          \<not> running (step h ClickStartPause st)
          \<and> startedAtRef (step h ClickStartPause st) = None
          \<and> remainingAtStart (step h ClickStartPause st) = remainingAtStart st
          \<and> remainingAtStart st \<noteq> None)"
proof -
  have c: "consistent st" using assms by (simp add: consistent_reachable)
  then have a: "startedAtRef st \<noteq> None \<longrightarrow> remainingAtStart st \<noteq> None"
    and b: "running st \<longrightarrow> remainingAtStart st \<noteq> None"
    by (auto simp: consistent_def)
  have p: "running st \<longrightarrow>
          \<not> running (step h ClickStartPause st)
          \<and> startedAtRef (step h ClickStartPause st) = None
          \<and> remainingAtStart (step h ClickStartPause st) = remainingAtStart st"
    by (simp add: step_def click_start_pause_def effect_defs Let_def split: option.splits)
  show ?thesis using a b p by blast
qed

theorem anchor_invariant_witness:
  "running (run [(host_at 0, ClickStartPause)] init)
   \<and> startedAtRef (run [(host_at 0, ClickStartPause)] init) \<noteq> None
   \<and> remainingAtStart (run [(host_at 0, ClickStartPause)] init) \<noteq> None
   \<and> startedAtRef (step (host_at 10000) ClickStartPause (run [(host_at 0, ClickStartPause)] init))
       = None
   \<and> remainingAtStart
         (step (host_at 10000) ClickStartPause (run [(host_at 0, ClickStartPause)] init))
       = remainingAtStart (run [(host_at 0, ClickStartPause)] init)"
proof -
  let ?st = "run [(host_at 0, ClickStartPause)] init"
  have r: "running ?st" by (simp add: all_defs)
  have a: "startedAtRef ?st \<noteq> None" by (simp add: all_defs)
  from anchor_invariant [OF refl, of "[(host_at 0, ClickStartPause)]" "host_at 10000"] r a
  show ?thesis by simp
qed

subsection \<open>Restarting the bell\<close>

text \<open>
  Claim C4 does not hold of \<open>start\<close>: it creates a new repeating timer and a new
  time-out without clearing the ones it holds. Two expiries with no dismissal in
  between call \<open>bell.start()\<close> twice. After two calls of \<open>start\<close> the repeating timers 1
  and 3 are both live. A following \<open>stop\<close> clears timer 3 only: timer 1 stays live and
  still strikes the bell. The two time-outs do not clear it either.
\<close>

theorem bell_restart_leaks_loop:
  "bell_log (run [(host_at 0, ClickStartPause), (host_at 1500000, Tick 1),
                  (host_at 1500000, ClickStartPause), (host_at 1800000, Tick 2)] init)
     = [BellStart, BellStart]
   \<and> bell_intervals (foldl bell_apply createBellManager [BellStart, BellStart]) = [3, 1]
   \<and> intervalId (foldl bell_apply createBellManager [BellStart, BellStart, BellStop]) = None
   \<and> bell_intervals (foldl bell_apply createBellManager [BellStart, BellStart, BellStop]) = [1]
   \<and> strikes (bell_interval_fires 1
        (foldl bell_apply createBellManager [BellStart, BellStart, BellStop])) = 3
   \<and> bell_intervals (bell_timeout_fires 4 (bell_timeout_fires 2
        (foldl bell_apply createBellManager [BellStart, BellStart]))) = [1]"
proof -
  have a: "bell_log (run [(host_at 0, ClickStartPause), (host_at 1500000, Tick 1),
                  (host_at 1500000, ClickStartPause), (host_at 1800000, Tick 2)] init)
     = [BellStart, BellStart]"
    by (simp add: all_defs)
  have b: "foldl bell_apply createBellManager [BellStart, BellStart]
     = \<lparr>intervalId = Some 3, timeoutId = Some 4, bell_intervals = [3, 1],
        bell_timeouts = [4, 2], next_id = 5, strikes = 2\<rparr>"
    by (simp add: bell_start_def strikeBell_def createBellManager_def Let_def)
  have c: "foldl bell_apply createBellManager [BellStart, BellStart, BellStop]
     = \<lparr>intervalId = None, timeoutId = None, bell_intervals = [1],
        bell_timeouts = [2], next_id = 5, strikes = 2\<rparr>"
    by (simp add: bell_start_def bell_stop_def bell_clear_def strikeBell_def
        createBellManager_def Let_def)
  show ?thesis unfolding c b using a
    by (simp add: bell_interval_fires_def bell_timeout_fires_def bell_stop_def bell_clear_def
        strikeBell_def Let_def)
qed

subsection \<open>Pause and resume\<close>

text \<open>
  Claim C5. Pausing a running timer keeps the displayed \<open>timeLeft\<close>, and the next start
  sets a new anchor: \<open>startedAtRef\<close> is the time of that start and \<open>remainingAtStart\<close> is
  the \<open>timeLeft\<close> displayed when the timer was paused.
\<close>

theorem resume_reanchors:
  assumes "running st"
  shows "\<not> running (step h1 ClickStartPause st)
    \<and> timeLeft (step h1 ClickStartPause st) = timeLeft st
    \<and> running (step h2 ClickStartPause (step h1 ClickStartPause st))
    \<and> startedAtRef (step h2 ClickStartPause (step h1 ClickStartPause st)) = Some (now h2)
    \<and> remainingAtStart (step h2 ClickStartPause (step h1 ClickStartPause st))
        = Some (timeLeft st)"
  using assms
  by (simp add: step_def click_start_pause_def effect_defs Let_def split: option.splits)

text \<open>
  The scenario of the specification: start at 1500, pause when 1490 is displayed, start
  again. The old anchor held 1500, the new one holds 1490.
\<close>

theorem resume_reanchors_witness:
  "running (run [(host_at 0, ClickStartPause), (host_at 10000, Tick 1)] init)
   \<and> timeLeft (run [(host_at 0, ClickStartPause), (host_at 10000, Tick 1)] init) = 1490
   \<and> remainingAtStart (run [(host_at 0, ClickStartPause), (host_at 10000, Tick 1)] init)
       = Some 1500
   \<and> remainingAtStart
         (step (host_at 60000) ClickStartPause
            (step (host_at 10000) ClickStartPause
               (run [(host_at 0, ClickStartPause), (host_at 10000, Tick 1)] init)))
       = Some 1490"
proof -
  let ?st = "run [(host_at 0, ClickStartPause), (host_at 10000, Tick 1)] init"
  have r: "running ?st" by (simp add: all_defs)
  have t: "timeLeft ?st = 1490" by (simp add: all_defs)
  have a: "remainingAtStart ?st = Some 1500" by (simp add: all_defs)
  from resume_reanchors [OF r, of "host_at 10000" "host_at 60000"] r t a
  show ?thesis by simp
qed

subsection \<open>One expiry for each run\<close>

text \<open>
  Claim C6. Take a state reached from \<open>init\<close> in which the timer is running, and any
  sequence of ticks and visibility changes after it. The expiry transition fires at
  most once. It fires exactly once, and the timer has stopped, if one of the events
  that reaches its handler comes when no time remains; otherwise it does not fire and
  the timer is still running.
\<close>

theorem expiry_exactly_once:
  assumes "st = run pre init" and "running st" and "\<forall>x\<in>set tr. clock_event (snd x)"
  shows "expiries (run tr st) \<le> expiries st + 1
    \<and> ((\<exists>x\<in>set tr. delivered (snd x) st \<and> remaining (now (fst x)) st \<le> 0) \<longrightarrow>
          expiries (run tr st) = expiries st + 1 \<and> \<not> running (run tr st))
    \<and> (\<not> (\<exists>x\<in>set tr. delivered (snd x) st \<and> remaining (now (fst x)) st \<le> 0) \<longrightarrow>
          expiries (run tr st) = expiries st \<and> running (run tr st))"
proof -
  have c: "consistent st" using assms(1) by (simp add: consistent_reachable)
  note n = expiry_count [OF c assms(2,3)]
  note r = running_after_clock_events [OF c assms(2,3)]
  show ?thesis using n r by auto
qed

text \<open>
  The scenario of the specification: running with 1 second displayed, then two ticks and
  a visibility change at or after the end.
\<close>

theorem expiry_exactly_once_witness:
  "running (run [(host_at 0, ClickStartPause), (host_at 1499000, Tick 1)] init)
   \<and> timeLeft (run [(host_at 0, ClickStartPause), (host_at 1499000, Tick 1)] init) = 1
   \<and> expiries (run [(host_at 0, ClickStartPause), (host_at 1499000, Tick 1)] init) = 0
   \<and> expiries
        (run [(host_at 1500000, Tick 1), (host_at 1500500, Tick 1), (host_at 1501000, Visible)]
           (run [(host_at 0, ClickStartPause), (host_at 1499000, Tick 1)] init))
       = expiries (run [(host_at 0, ClickStartPause), (host_at 1499000, Tick 1)] init) + 1"
proof -
  let ?pre = "[(host_at 0, ClickStartPause), (host_at 1499000, Tick 1)]"
  let ?tr = "[(host_at 1500000, Tick 1), (host_at 1500500, Tick 1), (host_at 1501000, Visible)]"
  have r: "running (run ?pre init)" by (simp add: all_defs)
  have t: "timeLeft (run ?pre init) = 1" by (simp add: all_defs)
  have e: "expiries (run ?pre init) = 0" by (simp add: all_defs expiries_def)
  have ce: "\<forall>x\<in>set ?tr. clock_event (snd x)" by simp
  have d: "delivered (Tick 1) (run ?pre init)" by (simp add: all_defs)
  have z: "remaining (now (host_at 1500000)) (run ?pre init) \<le> 0" by (simp add: all_defs)
  have ex: "\<exists>x\<in>set ?tr. delivered (snd x) (run ?pre init)
              \<and> remaining (now (fst x)) (run ?pre init) \<le> 0"
    by (rule bexI [where x = "(host_at 1500000, Tick 1)"]) (use d z in simp_all)
  note inst = expiry_exactly_once [OF refl r ce]
  from inst ex
  have "expiries (run ?tr (run ?pre init)) = expiries (run ?pre init) + 1" by blast
  with r t e show ?thesis by blast
qed

subsection \<open>Switching the mode\<close>

text \<open>
  Claim C7, as stated, fails in its clause on the anchor: \<open>switchMode\<close> assigns \<open>null\<close> to
  \<open>startedAtRef\<close> only. After a start at time 0 and a switch to the short break at 20
  seconds, \<open>startedAtRef\<close> is unset while \<open>remainingAtStart\<close> still holds 1500.
\<close>

theorem switch_mode_anchor_counterexample:
  "startedAtRef
     (step (host_at 20000) (SwitchMode short) (run [(host_at 0, ClickStartPause)] init)) = None
   \<and> remainingAtStart
       (step (host_at 20000) (SwitchMode short) (run [(host_at 0, ClickStartPause)] init))
     = Some 1500"
  by (simp add: all_defs)

text \<open>
  Claim C7, amended. From every state and for every mode \<open>m\<close>, also the current one,
  \<open>switchMode m\<close> yields mode \<open>m\<close>, \<open>timeLeft = duration m\<close> and a stopped timer. It clears
  \<open>startedAtRef\<close> and the interval handle and leaves \<open>remainingAtStart\<close> as it was. From
  a reachable state no interval timer stays live, so nothing counts down until the
  next start, which sets both halves of the anchor afresh, at the full duration.
\<close>

theorem switch_mode_resets:
  "mode (step h (SwitchMode m) st) = m
   \<and> timeLeft (step h (SwitchMode m) st) = duration m
   \<and> \<not> running (step h (SwitchMode m) st)
   \<and> startedAtRef (step h (SwitchMode m) st) = None
   \<and> intervalRef (step h (SwitchMode m) st) = None
   \<and> timers (step h (SwitchMode m) (run pre init)) = []
   \<and> startedAtRef (step h' ClickStartPause (step h (SwitchMode m) st)) = Some (now h')
   \<and> remainingAtStart (step h' ClickStartPause (step h (SwitchMode m) st)) = Some (duration m)
   \<and> remainingAtStart (step h (SwitchMode m) st) = remainingAtStart st"
proof -
  have "consistent (step h (SwitchMode m) (run pre init))"
    by (simp add: consistent_step consistent_reachable)
  moreover have "intervalRef (step h (SwitchMode m) (run pre init)) = None"
    by (simp add: step_def switchMode_def effect_defs Let_def split: option.splits)
  ultimately have t: "timers (step h (SwitchMode m) (run pre init)) = []"
    by (simp add: consistent_def)
  have s: "mode (step h (SwitchMode m) st) = m
   \<and> timeLeft (step h (SwitchMode m) st) = duration m
   \<and> \<not> running (step h (SwitchMode m) st)
   \<and> startedAtRef (step h (SwitchMode m) st) = None
   \<and> intervalRef (step h (SwitchMode m) st) = None
   \<and> remainingAtStart (step h (SwitchMode m) st) = remainingAtStart st"
    by (simp add: step_def switchMode_def effect_defs Let_def split: option.splits)
  have n: "startedAtRef (step h' ClickStartPause s') = Some (now h')
   \<and> remainingAtStart (step h' ClickStartPause s') = Some (timeLeft s')"
    if "\<not> running s'" "startedAtRef s' = None" for s'
    using that by (simp add: step_def click_start_pause_def effect_defs Let_def split: option.splits)
  from n [of "step h (SwitchMode m) st"] s t show ?thesis by simp
qed

subsection \<open>Reset\<close>

text \<open>
  Claim C8, as stated, fails in its clause on the anchor: the reset handler assigns
  \<open>null\<close> to \<open>startedAtRef\<close> only. After a start at time 0 and a reset at 20 seconds,
  \<open>startedAtRef\<close> is unset while \<open>remainingAtStart\<close> still holds 1500.
\<close>

theorem reset_anchor_counterexample:
  "startedAtRef
     (step (host_at 20000) ClickReset (run [(host_at 0, ClickStartPause)] init)) = None
   \<and> remainingAtStart
       (step (host_at 20000) ClickReset (run [(host_at 0, ClickStartPause)] init))
     = Some 1500"
  by (simp add: all_defs)

text \<open>
  Claim C8, amended. From every state, reset yields a stopped timer,
  \<open>timeLeft = duration mode\<close> and the same mode. It clears \<open>startedAtRef\<close> and the interval
  handle and leaves \<open>remainingAtStart\<close> as it was. From a reachable state no interval
  timer stays live, and the next start sets both halves of the anchor afresh, at the
  full duration.
\<close>

theorem reset_restores_duration:
  "\<not> running (step h ClickReset st)
   \<and> startedAtRef (step h ClickReset st) = None
   \<and> intervalRef (step h ClickReset st) = None
   \<and> timeLeft (step h ClickReset st) = duration (mode st)
   \<and> mode (step h ClickReset st) = mode st
   \<and> timers (step h ClickReset (run pre init)) = []
   \<and> startedAtRef (step h' ClickStartPause (step h ClickReset st)) = Some (now h')
   \<and> remainingAtStart (step h' ClickStartPause (step h ClickReset st))
       = Some (duration (mode st))
   \<and> remainingAtStart (step h ClickReset st) = remainingAtStart st"
proof -
  have "consistent (step h ClickReset (run pre init))"
    by (simp add: consistent_step consistent_reachable)
  moreover have "intervalRef (step h ClickReset (run pre init)) = None"
    by (simp add: step_def click_reset_def effect_defs Let_def split: option.splits)
  ultimately have t: "timers (step h ClickReset (run pre init)) = []"
    by (simp add: consistent_def)
  have s: "\<not> running (step h ClickReset st)
   \<and> startedAtRef (step h ClickReset st) = None
   \<and> intervalRef (step h ClickReset st) = None
   \<and> timeLeft (step h ClickReset st) = duration (mode st)
   \<and> mode (step h ClickReset st) = mode st
   \<and> remainingAtStart (step h ClickReset st) = remainingAtStart st"
    by (simp add: step_def click_reset_def effect_defs Let_def split: option.splits)
  have n: "startedAtRef (step h' ClickStartPause s') = Some (now h')
   \<and> remainingAtStart (step h' ClickStartPause s') = Some (timeLeft s')"
    if "\<not> running s'" "startedAtRef s' = None" for s'
    using that by (simp add: step_def click_start_pause_def effect_defs Let_def split: option.splits)
  from n [of "step h ClickReset st"] s t show ?thesis by simp
qed

subsection \<open>Failures of the store\<close>

text \<open>
  Claim C9. Whatever the store does, \<open>loadTodaySessions\<close> returns a number and does not
  throw: 0 when the store has no entry, 0 when the read fails, the converted value
  when there is one. \<open>saveTodaySessions\<close> completes normally also when the write fails,
  and the state after \<open>finishSession\<close>, and after every step, is the same whatever the
  write does.
\<close>

theorem persistence_failures_swallowed:
  "(\<exists>k. loadTodaySessions get Number d = Inr k)
   \<and> (get (todayKey d) = Inr None \<longrightarrow> loadTodaySessions get Number d = Inr 0)
   \<and> (get (todayKey d) = Inl x \<longrightarrow> loadTodaySessions get Number d = Inr 0)
   \<and> (get (todayKey d) = Inr (Some v) \<and> Number v = Inr k' \<longrightarrow>
        loadTodaySessions get Number d = Inr k')
   \<and> saveTodaySessions put d n = Inr ()
   \<and> finishSession (h\<lparr>storage_set := put\<rparr>) st = finishSession (h\<lparr>storage_set := put'\<rparr>) st
   \<and> step (h\<lparr>storage_set := put\<rparr>) e st = step (h\<lparr>storage_set := put'\<rparr>) e st"
proof -
  have a: "\<exists>k. loadTodaySessions get Number d = Inr k"
    by (auto simp: loadTodaySessions_def split: sum.splits option.splits)
  have b: "get (todayKey d) = Inr None \<longrightarrow> loadTodaySessions get Number d = Inr 0"
    by (simp add: loadTodaySessions_def)
  have c: "get (todayKey d) = Inl x \<longrightarrow> loadTodaySessions get Number d = Inr 0"
    by (simp add: loadTodaySessions_def)
  have c': "get (todayKey d) = Inr (Some v) \<and> Number v = Inr k' \<longrightarrow>
        loadTodaySessions get Number d = Inr k'"
    by (simp add: loadTodaySessions_def)
  have s: "saveTodaySessions put d n = Inr ()"
    by (simp add: saveTodaySessions_def split: sum.splits)
  have f: "finishSession (h\<lparr>storage_set := put\<rparr>) st = finishSession (h\<lparr>storage_set := put'\<rparr>) st"
    by (simp add: handler_defs Let_def)
  show ?thesis using a b c c' s f step_storage_independent by blast
qed

theorem persistence_failures_swallowed_witness:
  "get_absent (todayKey a_day) = Inr None
   \<and> loadTodaySessions get_absent Inr a_day = Inr 0
   \<and> get_fails (todayKey a_day) = Inl Exn
   \<and> loadTodaySessions get_fails Inr a_day = Inr 0
   \<and> saveTodaySessions storage_rejects a_day 8 = Inr ()
   \<and> dailySessions
        (step (failing_host_at 1500000) (Tick 1) (run [(host_at 0, ClickStartPause)] init)) = 1"
proof -
  have a: "get_absent (todayKey a_day) = Inr None" by (simp add: get_absent_def)
  have f: "get_fails (todayKey a_day) = Inl Exn" by (simp add: get_fails_def)
  from persistence_failures_swallowed [of get_absent Inr a_day Exn 0 0 storage_rejects 8] a
  have 1: "loadTodaySessions get_absent Inr a_day = Inr 0" by blast
  from persistence_failures_swallowed [of get_fails Inr a_day Exn 0 0 storage_rejects 8] f
  have 2: "loadTodaySessions get_fails Inr a_day = Inr 0"
    and 3: "saveTodaySessions storage_rejects a_day 8 = Inr ()" by blast+
  have 4: "dailySessions
        (step (failing_host_at 1500000) (Tick 1) (run [(host_at 0, ClickStartPause)] init)) = 1"
    by (simp add: all_defs)
  from a f 1 2 3 4 show ?thesis by blast
qed

subsection \<open>The counters change at a focus expiry only\<close>

text \<open>
  Claim C10, as stated, fails in its last clause: the completion of the start-up load
  assigns the loaded number to \<open>dailySessions\<close>, whatever it holds. If a focus session
  expires first and the load then resolves to 0, \<open>dailySessions\<close> goes from 1 to 0.
\<close>

theorem daily_counter_counterexample:
  "dailySessions (run [(host_at 0, ClickStartPause), (host_at 1500000, Tick 1)] init) = 1
   \<and> dailySessions
       (run [(host_at 0, ClickStartPause), (host_at 1500000, Tick 1),
             (host_at 1500000, LoadCompleted 0)] init) = 0"
  by (simp add: all_defs)

text \<open>
  Claim C10, amended. Start, pause, reset and mode switch leave \<open>sessions\<close> and
  \<open>dailySessions\<close> as they are; so does \<open>finishSession\<close> for a break. \<open>finishSession\<close> for a
  focus session adds 1 to each. A step either leaves both counters as they are, or adds
  1 to both, and then it is a clock event that reaches its handler with no time
  remaining in focus mode, or it is the completion of the start-up load, which leaves
  \<open>sessions\<close> and assigns the loaded number to \<open>dailySessions\<close>. Hence \<open>sessions\<close> never
  decreases, and \<open>dailySessions\<close> never decreases along a sequence of events in which no
  load completes.
\<close>

theorem counters_frame:
  "sessions (step h ClickStartPause st) = sessions st
   \<and> dailySessions (step h ClickStartPause st) = dailySessions st
   \<and> sessions (step h ClickReset st) = sessions st
   \<and> dailySessions (step h ClickReset st) = dailySessions st
   \<and> sessions (step h (SwitchMode m) st) = sessions st
   \<and> dailySessions (step h (SwitchMode m) st) = dailySessions st
   \<and> (modeRef st \<noteq> focus \<longrightarrow>
        sessions (finishSession h st) = sessions st
        \<and> dailySessions (finishSession h st) = dailySessions st)
   \<and> (modeRef st = focus \<longrightarrow>
        sessions (finishSession h st) = sessions st + 1
        \<and> dailySessions (finishSession h st) = dailySessions st + 1)
   \<and> (sessions (step h e st) = sessions st \<and> dailySessions (step h e st) = dailySessions st
      \<or> sessions (step h e st) = sessions st + 1
        \<and> dailySessions (step h e st) = dailySessions st + 1
        \<and> modeRef st = focus \<and> delivered e st \<and> remaining (now h) st \<le> 0
      \<or> load_event e \<and> sessions (step h e st) = sessions st)
   \<and> sessions (step h (LoadCompleted n) st) = sessions st
   \<and> dailySessions (step h (LoadCompleted n) st) = n
   \<and> sessions st \<le> sessions (run tr st)
   \<and> ((\<forall>x\<in>set tr. \<not> load_event (snd x)) \<longrightarrow>
        dailySessions st \<le> dailySessions (run tr st))"
proof -
  have a: "sessions (step h ClickStartPause st) = sessions st
           \<and> dailySessions (step h ClickStartPause st) = dailySessions st"
    using step_counters [of h ClickStartPause st] by simp
  have b: "sessions (step h ClickReset st) = sessions st
           \<and> dailySessions (step h ClickReset st) = dailySessions st"
    using step_counters [of h ClickReset st] by simp
  have c: "sessions (step h (SwitchMode m) st) = sessions st
           \<and> dailySessions (step h (SwitchMode m) st) = dailySessions st"
    using step_counters [of h "SwitchMode m" st] by simp
  have d: "modeRef st \<noteq> focus \<longrightarrow>
        sessions (finishSession h st) = sessions st
        \<and> dailySessions (finishSession h st) = dailySessions st"
    by (simp add: finishSession_counters)
  have f: "modeRef st = focus \<longrightarrow>
        sessions (finishSession h st) = sessions st + 1
        \<and> dailySessions (finishSession h st) = dailySessions st + 1"
    by (simp add: finishSession_counters)
  have g: "(\<forall>x\<in>set tr. \<not> load_event (snd x)) \<longrightarrow>
        dailySessions st \<le> dailySessions (run tr st)"
    by (simp add: run_dailySessions)
  show ?thesis
    using a b c d f g step_counters [of h e st] step_load_completed [of h n st]
      run_sessions [of st tr]
    by blast
qed

theorem counters_frame_witness:
  "modeRef (step (host_at 0) (SwitchMode long) init) \<noteq> focus
   \<and> sessions (finishSession (host_at 900000) (step (host_at 0) (SwitchMode long) init))
       = sessions (step (host_at 0) (SwitchMode long) init)
   \<and> dailySessions (finishSession (host_at 900000) (step (host_at 0) (SwitchMode long) init))
       = dailySessions (step (host_at 0) (SwitchMode long) init)
   \<and> modeRef init = focus
   \<and> sessions (finishSession (host_at 1500000) init) = sessions init + 1
   \<and> dailySessions (finishSession (host_at 1500000) init) = dailySessions init + 1
   \<and> load_event ClickStartPause = False
   \<and> load_event (Tick 1) = False
   \<and> dailySessions init
       \<le> dailySessions (run [(host_at 0, ClickStartPause), (host_at 1500000, Tick 1)] init)"
proof -
  let ?b = "step (host_at 0) (SwitchMode long) init"
  let ?tr = "[(host_at 0, ClickStartPause), (host_at 1500000, Tick 1)]"
  have l: "modeRef ?b \<noteq> focus"
    by (simp add: step_def switchMode_def effect_defs init_def Let_def)
  have i: "modeRef init = focus" by (simp add: init_def)
  have k: "\<forall>x\<in>set ?tr. \<not> load_event (snd x)" by simp
  from counters_frame [of "host_at 900000" ?b long "Tick 1" 0 "[]"] l
  have 1: "sessions (finishSession (host_at 900000) ?b) = sessions ?b
           \<and> dailySessions (finishSession (host_at 900000) ?b) = dailySessions ?b"
    by blast
  from counters_frame [of "host_at 1500000" init long "Tick 1" 0 ?tr] i k
  have 2: "sessions (finishSession (host_at 1500000) init) = sessions init + 1
           \<and> dailySessions (finishSession (host_at 1500000) init) = dailySessions init + 1"
    and 3: "dailySessions init \<le> dailySessions (run ?tr init)"
    by blast+
  have n: "load_event ClickStartPause = False" "load_event (Tick 1) = False" by simp_all
  from l i n 1 2 3 show ?thesis by blast
qed

end
